theory Spec2Isabelle
  imports Main "HOL-Library.Signed_Division"
begin

section \<open>SWLog: a synchronous, process-wide logger\<close>

text \<open>
  The development follows \<^verbatim>\<open>src/runtime/SWLog.cpp\<close>, in the build with
  \<^verbatim>\<open>LOG_OUTPUT\<close> defined and the \<^verbatim>\<open>__linux__\<close> branches selected. The four static
  members of the class are a record that every operation takes and returns; the operating
  system is a second record, with the sequence of system calls made so far. The module
  mutex only serialises emission between threads and is not part of this sequential model.
\<close>

subsection \<open>The operating system\<close>

text \<open>
  The calls the logger makes. \<open>SysOpen\<close> carries the descriptor that \<^verbatim>\<open>open\<close> returned
  (\<open>-1\<close> on failure); \<open>SysWrite\<close> and \<open>SysPrintf\<close> carry the bytes handed over.
\<close>

datatype syscall =
    SysGetcwd
  | SysAccess string
  | SysMkdir string
  | SysOpen string int
  | SysClose int
  | SysLseek int
  | SysWrite int string
  | SysFsync int
  | SysPrintf string

text \<open>
  The part of the system the logger can observe: the working directory, what an
  uninitialised buffer of the caller happens to hold, the directories that exist, the paths
  on which \<^verbatim>\<open>mkdir\<close> and \<^verbatim>\<open>open\<close> are refused (permissions, a missing parent, a full
  descriptor table), the descriptors on which \<^verbatim>\<open>write\<close> and \<^verbatim>\<open>fsync\<close> are refused (a full
  disk, an input/output error), the open descriptors with their paths, and the trace of
  calls.
\<close>

record world =
  cwd :: string
  uninit_buf :: string
  dirs :: "string list"
  deny_mkdir :: "string list"
  deny_open :: "string list"
  deny_write :: "int list"
  fds :: "(int \<times> string) list"
  trace :: "syscall list"

definition emit :: "syscall \<Rightarrow> world \<Rightarrow> world" where
  "emit e w = w\<lparr>trace := trace w @ [e]\<rparr>"

definition open_handles :: "world \<Rightarrow> int list" where
  "open_handles w = map fst (fds w)"

text \<open>
  \<^verbatim>\<open>getcwd\<close> into a buffer of the given size: the working directory when it fits with
  its terminator, and otherwise the null pointer, with the buffer left as it was.
\<close>

definition os_getcwd :: "nat \<Rightarrow> world \<Rightarrow> string option \<times> world" where
  "os_getcwd len w =
     ((if length (cwd w) < len then Some (cwd w) else None), emit SysGetcwd w)"

definition os_access :: "string \<Rightarrow> world \<Rightarrow> int \<times> world" where
  "os_access p w = ((if p \<in> set (dirs w) then 0 else -1), emit (SysAccess p) w)"

definition os_mkdir :: "string \<Rightarrow> world \<Rightarrow> int \<times> world" where
  "os_mkdir p w =
     (if p \<in> set (dirs w) \<or> p \<in> set (deny_mkdir w) then (-1, emit (SysMkdir p) w)
      else (0, emit (SysMkdir p) (w\<lparr>dirs := p # dirs w\<rparr>)))"

text \<open>The lowest descriptor above the three standard streams that is not open.\<close>

definition lowest_free :: "int list \<Rightarrow> int" where
  "lowest_free ks = hd (filter (\<lambda>k. k \<notin> set ks) [3 .. 3 + int (length ks)] @ [4 + int (length ks)])"

text \<open>
  \<^verbatim>\<open>open\<close> for reading and writing, creating the file when it is missing. It fails on the
  empty path, on a path that ends in a slash, on a directory and on a refused path.
\<close>

definition os_open :: "string \<Rightarrow> world \<Rightarrow> int \<times> world" where
  "os_open p w =
     (if p = [] \<or> last p = CHR ''/'' \<or> p \<in> set (dirs w) \<or> p \<in> set (deny_open w)
      then (-1, emit (SysOpen p (-1)) w)
      else let fd = lowest_free (open_handles w)
           in (fd, emit (SysOpen p fd) (w\<lparr>fds := (fd, p) # fds w\<rparr>)))"

definition os_close :: "int \<Rightarrow> world \<Rightarrow> world" where
  "os_close fd w = emit (SysClose fd) (w\<lparr>fds := filter (\<lambda>(k, p). k \<noteq> fd) (fds w)\<rparr>)"

text \<open>
  \<^verbatim>\<open>lseek\<close> to the start, \<^verbatim>\<open>write\<close> and \<^verbatim>\<open>fsync\<close>, each with its result: \<open>-1\<close> on a
  descriptor that is not open, and for the last two on a refused descriptor.
\<close>

definition os_lseek :: "int \<Rightarrow> world \<Rightarrow> int \<times> world" where
  "os_lseek fd w = ((if fd \<in> set (open_handles w) then 0 else -1), emit (SysLseek fd) w)"

definition os_write :: "int \<Rightarrow> string \<Rightarrow> world \<Rightarrow> int \<times> world" where
  "os_write fd buf w =
     ((if fd \<in> set (open_handles w) \<and> fd \<notin> set (deny_write w) then int (length buf) else -1),
      emit (SysWrite fd buf) w)"

definition os_fsync :: "int \<Rightarrow> world \<Rightarrow> int \<times> world" where
  "os_fsync fd w =
     ((if fd \<in> set (open_handles w) \<and> fd \<notin> set (deny_write w) then 0 else -1),
      emit (SysFsync fd) w)"

definition os_printf :: "string \<Rightarrow> world \<Rightarrow> world" where
  "os_printf buf w = emit (SysPrintf buf) w"

text \<open>What a run has put out: the buffers of its \<^verbatim>\<open>write\<close> and \<^verbatim>\<open>printf\<close> calls, in order.\<close>

fun output_of :: "syscall \<Rightarrow> string list" where
  "output_of (SysWrite fd buf) = [buf]"
| "output_of (SysPrintf buf) = [buf]"
| "output_of _ = []"

definition outputs :: "world \<Rightarrow> string list" where
  "outputs w = concat (map output_of (trace w))"

subsection \<open>printf and strftime conversions\<close>

text \<open>
  Modelled from the spec: \<^verbatim>\<open>format_string\<close> of \<^verbatim>\<open>Common.h\<close>, which is not among the sources;
  the specification describes it as printf-style interpolation. Each use in the logger is
  written out below as the concatenation its format produces, from these conversions; the
  conversions of \<^verbatim>\<open>strftime\<close> are those of the C library.
\<close>

definition digit :: "nat \<Rightarrow> char" where
  "digit d = ''0123456789'' ! (d mod 10)"

fun dec :: "nat \<Rightarrow> string" where
  "dec n = (if n < 10 then [digit n] else dec (n div 10) @ [digit (n mod 10)])"

declare dec.simps [simp del]

text \<open>\<^verbatim>\<open>%0Nd\<close>: the sign, then zeros up to the width, then the decimal digits.\<close>

definition fmt_0d :: "nat \<Rightarrow> int \<Rightarrow> string" where
  "fmt_0d width n =
     (if n < 0
      then let ds = dec (nat (- n)) in ''-'' @ replicate (width - 1 - length ds) CHR ''0'' @ ds
      else let ds = dec (nat n) in replicate (width - length ds) CHR ''0'' @ ds)"

text \<open>\<^verbatim>\<open>%u\<close>: the argument read as an unsigned 32-bit integer.\<close>

definition fmt_u :: "int \<Rightarrow> string" where
  "fmt_u n = dec (nat (n mod 2 ^ 32))"

text \<open>\<^verbatim>\<open>%Y\<close> of \<^verbatim>\<open>strftime\<close>: the year as a decimal number.\<close>

definition fmt_Y :: "int \<Rightarrow> string" where
  "fmt_Y y = (if y < 0 then ''-'' @ dec (nat (- y)) else dec (nat y))"

subsection \<open>The logger\<close>

text \<open>
  Modelled from the spec: the enumeration \<^verbatim>\<open>SWLOG_LEVEL\<close> of \<^verbatim>\<open>SWLog.h\<close>, which is not
  among the sources. The specification orders it None(0) < Error < Warning < Info and
  leaves the numeric spacing to the implementation, so the four values are a parameter of
  the operations that use them; \<open>spec_levels\<close> is the consecutive numbering.
\<close>

record swlog_levels =
  LOG_NONE :: int
  LOG_ERROR :: int
  LOG_WARNING :: int
  LOG_INFO :: int

definition spec_levels :: swlog_levels where
  "spec_levels = \<lparr>LOG_NONE = 0, LOG_ERROR = 1, LOG_WARNING = 2, LOG_INFO = 3\<rparr>"

text \<open>The static members of \<^verbatim>\<open>SWLog\<close> (lines 21 to 28).\<close>

record swlog =
  m_bToFile :: bool
  m_bTruncateLongLog :: bool
  m_iLogFile :: int
  m_nLogLevel :: int

definition swlog_initial :: "swlog_levels \<Rightarrow> swlog" where
  "swlog_initial lv =
     \<lparr>m_bToFile = False, m_bTruncateLongLog = False, m_iLogFile = -1,
      m_nLogLevel = LOG_NONE lv\<rparr>"

definition MAX_LINE_LENGTH :: nat where
  "MAX_LINE_LENGTH = 256"

text \<open>
  \<^verbatim>\<open>SWLog::Init\<close> (lines 41 to 101). \<open>PATH_SIZE\<close> is the constant of that name, whose
  definition is not among the sources. The file name is a nullable pointer: \<open>None\<close> is
  \<^verbatim>\<open>nullptr\<close>. The two flags are stored before the arguments are checked. The results of
  \<^verbatim>\<open>getcwd\<close> and \<^verbatim>\<open>mkdir\<close> are not looked at: \<open>fileDirectory\<close> is the buffer after the
  call, which is uninitialised when \<^verbatim>\<open>getcwd\<close> failed. The descriptor is stored whatever
  \<^verbatim>\<open>open\<close> returned. In the last branch the pointer is not null, so the case \<open>None\<close> there
  is never taken.
\<close>

definition Init :: "nat \<Rightarrow> bool \<Rightarrow> bool \<Rightarrow> string option \<Rightarrow> swlog \<times> world \<Rightarrow> bool \<times> swlog \<times> world" where
  "Init PATH_SIZE bToFile bTruncateLongLog c_cLogFileName sw =
     (case sw of (s, w) \<Rightarrow>
        let s1 = s\<lparr>m_bToFile := bToFile, m_bTruncateLongLog := bTruncateLongLog\<rparr>
        in if bToFile \<and> c_cLogFileName = None then (False, s1, w)
           else if \<not> bToFile then (True, s1, w)
           else
             (case c_cLogFileName of
                None \<Rightarrow> (False, s1, w)
              | Some name \<Rightarrow>
                  (case os_getcwd PATH_SIZE w of (got, w1) \<Rightarrow>
                     let fileDirectory = (case got of Some d \<Rightarrow> d | None \<Rightarrow> uninit_buf w1);
                         logFileDirectory = fileDirectory @ ''/Log/''
                     in (case os_access logFileDirectory w1 of (acc, w2) \<Rightarrow>
                           let w3 = (if acc = -1 then snd (os_mkdir logFileDirectory w2) else w2);
                               logFileName = logFileDirectory @ name
                           in (case os_open logFileName w3 of (fd, w4) \<Rightarrow>
                                 let s2 = s1\<lparr>m_iLogFile := fd\<rparr>
                                 in if fd = -1 then (False, s2, w4) else (True, s2, w4))))))"

text \<open>The log directory that \<open>Init\<close> works with.\<close>

definition logFileDirectory :: "nat \<Rightarrow> world \<Rightarrow> string" where
  "logFileDirectory PATH_SIZE w =
     (if length (cwd w) < PATH_SIZE then cwd w else uninit_buf w) @ ''/Log/''"

text \<open>\<^verbatim>\<open>SWLog::UnInit\<close> (lines 107 to 124).\<close>

definition UnInit :: "swlog \<times> world \<Rightarrow> swlog \<times> world" where
  "UnInit sw =
     (case sw of (s, w) \<Rightarrow>
        if m_iLogFile s \<noteq> -1
        then (s\<lparr>m_iLogFile := -1\<rparr>, os_close (m_iLogFile s) w)
        else (s, w))"

text \<open>
  The clock as \<^verbatim>\<open>SWLog::GetLogTime\<close> reads it: the \<^verbatim>\<open>timeval\<close> that \<^verbatim>\<open>gettimeofday\<close>
  fills in and the \<^verbatim>\<open>struct tm\<close> that \<^verbatim>\<open>localtime_r\<close> computes from its seconds, with
  the fields as C has them (years since 1900, months from 0).
\<close>

record timeval =
  tv_sec :: int
  tv_usec :: int

record tm =
  tm_sec :: int
  tm_min :: int
  tm_hour :: int
  tm_mday :: int
  tm_mon :: int
  tm_year :: int

record clock =
  clk_tv :: timeval
  clk_local :: tm

text \<open>\<^verbatim>\<open>strftime\<close> with the format \<^verbatim>\<open>%Y-%m-%d %H:%M:%S\<close>.\<close>

definition strftime_ymd_hms :: "tm \<Rightarrow> string" where
  "strftime_ymd_hms t =
     fmt_Y (tm_year t + 1900) @ ''-'' @ fmt_0d 2 (tm_mon t + 1) @ ''-'' @ fmt_0d 2 (tm_mday t)
     @ '' '' @ fmt_0d 2 (tm_hour t) @ '':'' @ fmt_0d 2 (tm_min t) @ '':'' @ fmt_0d 2 (tm_sec t)"

text \<open>
  \<^verbatim>\<open>SWLog::GetLogTime\<close> (lines 131 to 159). The division is C's, which truncates
  towards zero.
\<close>

definition GetLogTime :: "clock \<Rightarrow> string" where
  "GetLogTime clk =
     (let millis = tv_usec (clk_tv clk) sdiv 1000;
          buffer = strftime_ymd_hms (clk_local clk)
      in ''['' @ buffer @ '' '' @ fmt_0d 4 millis @ '']'')"

text \<open>The level tag of \<^verbatim>\<open>SWLog::Log\<close> (lines 180 to 192); it stays empty for any other level.\<close>

definition strLogLevel :: "swlog_levels \<Rightarrow> int \<Rightarrow> string" where
  "strLogLevel lv nLevel =
     (if nLevel = LOG_INFO lv then ''[INFO]''
      else if nLevel = LOG_WARNING lv then ''[WARNING]''
      else if nLevel = LOG_ERROR lv then ''[ERROR]''
      else [])"

text \<open>The prefix of a line (lines 193 to 201): time, tag, thread, place.\<close>

definition LogHeader :: "swlog_levels \<Rightarrow> clock \<Rightarrow> int \<Rightarrow> int \<Rightarrow> string \<Rightarrow> string \<Rightarrow> int \<Rightarrow> string" where
  "LogHeader lv clk dwThreadID nLevel pszFileName pszFunctionSig nLineNo =
     (let strLogInfo = GetLogTime clk @ '' '' @ strLogLevel lv nLevel
      in strLogInfo @ '' [ThreadID: '' @ fmt_u dwThreadID @ ''] ['' @ pszFileName
         @ '' Line: '' @ fmt_u nLineNo @ ''] [Function: '' @ pszFunctionSig @ ''] Message: '')"

text \<open>
  The whole line (lines 203 to 215): the prefix, the body, clipped when the logger
  truncates, and the terminator CR LF.
\<close>

definition LogLine :: "swlog \<Rightarrow> string \<Rightarrow> string \<Rightarrow> string" where
  "LogLine s header strLogMsg =
     header
     @ (if m_bTruncateLongLog s then take MAX_LINE_LENGTH strLogMsg else strLogMsg)
     @ [CHR 0x0D, CHR 0x0A]"

text \<open>
  \<^verbatim>\<open>SWLog::Log\<close> (lines 173 to 258). \<open>clk\<close> and \<open>dwThreadID\<close> are what the clock and
  \<^verbatim>\<open>pthread_self\<close> give the call; \<open>strLogMsg\<close> is the body that \<^verbatim>\<open>format_string\<close> made of
  the caller's format and arguments. The results of \<^verbatim>\<open>lseek\<close>, \<^verbatim>\<open>write\<close> and \<^verbatim>\<open>fsync\<close>
  are not looked at: the file branch returns true once the handle is valid.
\<close>

definition Log :: "swlog_levels \<Rightarrow> clock \<Rightarrow> int \<Rightarrow> int \<Rightarrow> string \<Rightarrow> string \<Rightarrow> int \<Rightarrow> string
                   \<Rightarrow> swlog \<times> world \<Rightarrow> bool \<times> swlog \<times> world" where
  "Log lv clk dwThreadID nLevel pszFileName pszFunctionSig nLineNo strLogMsg sw =
     (case sw of (s, w) \<Rightarrow>
        if nLevel \<le> m_nLogLevel s then (False, s, w)
        else
          let strLogInfo =
                LogLine s (LogHeader lv clk dwThreadID nLevel pszFileName pszFunctionSig nLineNo)
                  strLogMsg
          in if m_bToFile s
             then if m_iLogFile s = -1 then (False, s, w)
                  else
                    (case os_lseek (m_iLogFile s) w of (pos, w1) \<Rightarrow>
                       (case os_write (m_iLogFile s) strLogInfo w1 of (written, w2) \<Rightarrow>
                          (case os_fsync (m_iLogFile s) w2 of (synced, w3) \<Rightarrow>
                             (True, s, w3))))
             else (True, s, os_printf strLogInfo w))"

text \<open>A sequence of calls of \<^verbatim>\<open>SWLog::Log\<close>, one after the other, with their results.\<close>

record log_call =
  lc_clk :: clock
  lc_thread :: int
  lc_level :: int
  lc_file :: string
  lc_func :: string
  lc_line :: int
  lc_msg :: string

fun Logs :: "swlog_levels \<Rightarrow> log_call list \<Rightarrow> swlog \<times> world \<Rightarrow> bool list \<times> swlog \<times> world" where
  "Logs lv [] sw = ([], sw)"
| "Logs lv (c # cs) sw =
     (case Log lv (lc_clk c) (lc_thread c) (lc_level c) (lc_file c) (lc_func c) (lc_line c)
             (lc_msg c) sw of
        (r, sw') \<Rightarrow> (case Logs lv cs sw' of (rs, sw'') \<Rightarrow> (r # rs, sw'')))"

text \<open>The three calls that one call of \<open>Log\<close> makes on its file branch.\<close>

definition file_calls :: "swlog_levels \<Rightarrow> swlog \<Rightarrow> log_call \<Rightarrow> syscall list" where
  "file_calls lv s c =
     [SysLseek (m_iLogFile s),
      SysWrite (m_iLogFile s)
        (LogLine s (LogHeader lv (lc_clk c) (lc_thread c) (lc_level c) (lc_file c) (lc_func c)
                      (lc_line c)) (lc_msg c)),
      SysFsync (m_iLogFile s)]"

subsection \<open>Reading a timestamp back\<close>

definition is_digit :: "char \<Rightarrow> bool" where
  "is_digit c = (c \<in> set ''0123456789'')"

definition digit_val :: "char \<Rightarrow> nat" where
  "digit_val c = of_char c - 48"

definition undec :: "string \<Rightarrow> nat" where
  "undec ds = foldl (\<lambda>a c. 10 * a + digit_val c) 0 ds"

text \<open>
  What \<^verbatim>\<open>gettimeofday\<close> and \<^verbatim>\<open>localtime_r\<close> promise of their results: microseconds below
  one million and calendar fields in their ranges, here with a year of four digits.
\<close>

definition clock_in_range :: "clock \<Rightarrow> bool" where
  "clock_in_range clk =
     (0 \<le> tv_usec (clk_tv clk) \<and> tv_usec (clk_tv clk) < 1000000
      \<and> 0 \<le> tm_sec (clk_local clk) \<and> tm_sec (clk_local clk) \<le> 60
      \<and> 0 \<le> tm_min (clk_local clk) \<and> tm_min (clk_local clk) \<le> 59
      \<and> 0 \<le> tm_hour (clk_local clk) \<and> tm_hour (clk_local clk) \<le> 23
      \<and> 1 \<le> tm_mday (clk_local clk) \<and> tm_mday (clk_local clk) \<le> 31
      \<and> 0 \<le> tm_mon (clk_local clk) \<and> tm_mon (clk_local clk) \<le> 11
      \<and> 1000 \<le> tm_year (clk_local clk) + 1900 \<and> tm_year (clk_local clk) + 1900 \<le> 9999)"

subsection \<open>Sample runs\<close>

definition demo_world :: world where
  "demo_world =
     \<lparr>cwd = ''/w'', uninit_buf = [], dirs = [], deny_mkdir = [], deny_open = [],
      deny_write = [], fds = [], trace = []\<rparr>"

definition demo_clock :: clock where
  "demo_clock =
     \<lparr>clk_tv = \<lparr>tv_sec = 1641870245, tv_usec = 83456\<rparr>,
      clk_local = \<lparr>tm_sec = 5, tm_min = 4, tm_hour = 3, tm_mday = 11, tm_mon = 0,
                   tm_year = 122\<rparr>\<rparr>"

text \<open>
  The initial logger after an initialisation for the file destination without a file name:
  it is set to write to a file and has none open.
\<close>

definition demo_no_file :: "bool \<times> swlog \<times> world" where
  "demo_no_file = Init 4096 True False None (swlog_initial spec_levels, demo_world)"

text \<open>A console logger that truncates, as \<open>Init psz False True\<close> leaves the initial logger.\<close>

definition demo_console :: swlog where
  "demo_console =
     \<lparr>m_bToFile = False, m_bTruncateLongLog = True, m_iLogFile = -1, m_nLogLevel = 0\<rparr>"

text \<open>A first initialisation to a file, then a second one, to a file or to the console.\<close>

definition demo_file_once :: "bool \<times> swlog \<times> world" where
  "demo_file_once = Init 4096 True False (Some ''a'') (swlog_initial spec_levels, demo_world)"

definition demo_file_twice :: "bool \<times> swlog \<times> world" where
  "demo_file_twice = Init 4096 True False (Some ''a'') (snd demo_file_once)"

definition demo_file_then_console :: "bool \<times> swlog \<times> world" where
  "demo_file_then_console = Init 4096 False False None (snd demo_file_once)"

text \<open>A first initialisation to a file, then one for the file destination without a name.\<close>

definition demo_file_then_absent :: "bool \<times> swlog \<times> world" where
  "demo_file_then_absent = Init 4096 True True None (snd demo_file_once)"

section \<open>Properties\<close>

subsection \<open>Auxiliary facts\<close>

lemmas os_defs = emit_def os_getcwd_def os_access_def os_mkdir_def os_open_def os_close_def
  os_lseek_def os_write_def os_fsync_def os_printf_def

lemmas demo_defs = demo_world_def demo_clock_def demo_console_def
  swlog_initial_def spec_levels_def

lemma outputs_emit: "outputs (emit e w) = outputs w @ output_of e"
  by (simp add: outputs_def emit_def)

lemma os_worlds:
  "snd (os_lseek fd w) = emit (SysLseek fd) w"
  "snd (os_write fd buf w) = emit (SysWrite fd buf) w"
  "snd (os_fsync fd w) = emit (SysFsync fd) w"
  by (simp_all add: os_lseek_def os_write_def os_fsync_def)

lemma Log_filtered:
  "nLevel \<le> m_nLogLevel s \<Longrightarrow> Log lv clk tid nLevel f g n msg (s, w) = (False, s, w)"
  by (simp add: Log_def)

lemma Log_no_handle:
  "m_bToFile s \<Longrightarrow> m_iLogFile s = -1 \<Longrightarrow>
     Log lv clk tid nLevel f g n msg (s, w) = (False, s, w)"
  by (simp add: Log_def Let_def)

lemma Log_state: "fst (snd (Log lv clk tid nLevel f g n msg (s, w))) = s"
  by (simp add: Log_def Let_def case_prod_beta)

lemma Log_outputs:
  "outputs (snd (snd (Log lv clk tid nLevel f g n msg (s, w)))) =
     (if m_nLogLevel s < nLevel \<and> (m_bToFile s \<longrightarrow> m_iLogFile s \<noteq> -1)
      then outputs w @ [LogLine s (LogHeader lv clk tid nLevel f g n) msg]
      else outputs w)"
  by (simp add: Log_def Let_def case_prod_beta os_worlds os_printf_def outputs_emit)

lemma Log_result:
  "fst (Log lv clk tid nLevel f g n msg (s, w)) =
     (m_nLogLevel s < nLevel \<and> (m_bToFile s \<longrightarrow> m_iLogFile s \<noteq> -1))"
  by (auto simp add: Log_def Let_def case_prod_beta)

lemma Logs_no_handle:
  "m_bToFile s \<Longrightarrow> m_iLogFile s = -1 \<Longrightarrow>
     Logs lv cs (s, w) = (replicate (length cs) False, s, w)"
  by (induction cs) (simp_all add: Log_no_handle)

lemma Log_file_branch:
  assumes "m_bToFile s" and "m_iLogFile s \<noteq> -1" and "m_nLogLevel s < nLevel"
  shows "Log lv clk tid nLevel f g n msg (s, w) =
           (True, s,
            w\<lparr>trace := trace w @
               [SysLseek (m_iLogFile s),
                SysWrite (m_iLogFile s) (LogLine s (LogHeader lv clk tid nLevel f g n) msg),
                SysFsync (m_iLogFile s)]\<rparr>)"
  using assms by (simp add: Log_def Let_def case_prod_beta os_worlds emit_def)

text \<open>
  On the file branch the result of \<^verbatim>\<open>write\<close> does not reach the caller: where \<^verbatim>\<open>write\<close>
  is refused and returns \<open>-1\<close>, \<open>Log\<close> returns true all the same.
\<close>

lemma Log_failed_write:
  assumes "m_bToFile s" and "m_iLogFile s \<noteq> -1" and "m_nLogLevel s < nLevel"
    and "m_iLogFile s \<in> set (deny_write w)"
  shows "fst (os_write (m_iLogFile s) buf (snd (os_lseek (m_iLogFile s) w))) = -1
         \<and> fst (Log lv clk tid nLevel f g n msg (s, w)) = True"
  using assms by (simp add: Log_file_branch os_write_def os_lseek_def emit_def)

lemma Logs_file_branch:
  "m_bToFile s \<Longrightarrow> m_iLogFile s \<noteq> -1 \<Longrightarrow> \<forall>c \<in> set cs. m_nLogLevel s < lc_level c \<Longrightarrow>
     Logs lv cs (s, w) =
       (replicate (length cs) True, s, w\<lparr>trace := trace w @ concat (map (file_calls lv s) cs)\<rparr>)"
proof (induction cs arbitrary: w)
  case Nil
  then show ?case by simp
next
  case (Cons c cs)
  then show ?case
    by (simp add: Log_file_branch file_calls_def)
qed

lemma Init_missing_name:
  "Init psz True t None (s, w) = (False, s\<lparr>m_bToFile := True, m_bTruncateLongLog := t\<rparr>, w)"
  by (simp add: Init_def)

lemma Init_console:
  "Init psz False t name (s, w) = (True, s\<lparr>m_bToFile := False, m_bTruncateLongLog := t\<rparr>, w)"
  by (simp add: Init_def)

lemma UnInit_handle: "m_iLogFile (fst (UnInit (s, w))) = -1"
  by (simp add: UnInit_def)

lemma UnInit_flag: "m_bToFile (fst (UnInit (s, w))) = m_bToFile s"
  by (simp add: UnInit_def)

lemma UnInit_level: "m_nLogLevel (fst (UnInit (s, w))) = m_nLogLevel s"
  by (simp add: UnInit_def)

lemma UnInit_idem: "UnInit (UnInit sw) = UnInit sw"
  by (cases sw) (simp add: UnInit_def)

lemma UnInit_noop_iff: "(UnInit (s, w) = (s, w)) = (m_iLogFile s = -1)"
  by (auto simp add: UnInit_def dest: arg_cong [where f = m_iLogFile])

lemma lowest_free_fresh: "lowest_free ks \<notin> set ks \<and> 3 \<le> lowest_free ks"
proof -
  let ?n = "int (length ks)"
  let ?xs = "filter (\<lambda>k. k \<notin> set ks) [3 .. 3 + ?n]"
  have ne: "?xs \<noteq> []"
  proof
    assume "?xs = []"
    then have "set [3 .. 3 + ?n] \<subseteq> set ks"
      by (auto simp add: filter_empty_conv)
    then have "{3 .. 3 + ?n} \<subseteq> set ks"
      by simp
    then have "card {3 .. 3 + ?n} \<le> card (set ks)"
      by (rule card_mono [OF finite_set])
    moreover have "card (set ks) \<le> length ks"
      by (rule card_length)
    ultimately show False by simp
  qed
  then have "lowest_free ks = hd ?xs"
    by (simp add: lowest_free_def)
  moreover from ne have "hd ?xs \<in> set ?xs"
    by (rule hd_in_set)
  ultimately show ?thesis by auto
qed

lemma Init_file_state:
  "fst (snd (Init psz True t (Some name) (s, w))) =
     s\<lparr>m_bToFile := True, m_bTruncateLongLog := t,
       m_iLogFile := (if fst (Init psz True t (Some name) (s, w))
                      then lowest_free (open_handles w) else -1)\<rparr>"
  using lowest_free_fresh [of "open_handles w"]
  by (auto simp add: Init_def Let_def os_defs open_handles_def logFileDirectory_def
      split: prod.splits)

lemma Init_file_fds:
  "fds (snd (snd (Init psz True t (Some name) (s, w)))) =
     (if fst (Init psz True t (Some name) (s, w))
      then (lowest_free (open_handles w), logFileDirectory psz w @ name) # fds w else fds w)"
  using lowest_free_fresh [of "open_handles w"]
  by (auto simp add: Init_def Let_def os_defs open_handles_def logFileDirectory_def
      split: prod.splits)

lemma Init_fds_cases:
  "fds (snd (snd (Init psz b t name (s, w)))) = fds w
   \<or> (\<exists>x. fds (snd (snd (Init psz b t name (s, w)))) = x # fds w)"
  by (cases b; cases name) (auto simp add: Init_missing_name Init_console Init_file_fds)

lemma Init_file_trace:
  "trace (snd (snd (Init psz True t (Some nm) (s, w)))) =
     trace w @ [SysGetcwd, SysAccess (logFileDirectory psz w)]
     @ (if logFileDirectory psz w \<in> set (dirs w) then [] else [SysMkdir (logFileDirectory psz w)])
     @ [SysOpen (logFileDirectory psz w @ nm) (m_iLogFile (fst (snd (Init psz True t (Some nm) (s, w)))))]"
  by (simp add: Init_def Let_def os_defs logFileDirectory_def)

lemma Init_file_result:
  "fst (Init psz True t (Some nm) (s, w)) =
     (m_iLogFile (fst (snd (Init psz True t (Some nm) (s, w)))) \<noteq> -1)"
  using lowest_free_fresh [of "open_handles w"] by (auto simp add: Init_file_state)

lemma Init_empty_name_fails: "fst (Init psz True t (Some []) (s, w)) = False"
  by (simp add: Init_def Let_def os_defs)

lemma os_close_handles:
  "open_handles (os_close fd w) = filter (\<lambda>k. k \<noteq> fd) (open_handles w)"
  by (simp add: os_close_def emit_def open_handles_def filter_map comp_def split_def)

lemma UnInit_closes_all:
  assumes "open_handles w = (if m_iLogFile s = -1 then [] else [m_iLogFile s])"
  shows "open_handles (snd (UnInit (s, w))) = []"
  using assms by (simp add: UnInit_def os_close_handles)

lemma digit_cases: "d < 10 \<Longrightarrow> is_digit (digit d) \<and> digit_val (digit d) = d"
proof -
  assume "d < 10"
  then have "d \<in> {0, 1, 2, 3, 4, 5, 6, 7, 8, 9}" by auto
  then show ?thesis
    by (auto simp add: digit_def is_digit_def digit_val_def)
qed

lemma undec_snoc: "undec (ds @ [c]) = 10 * undec ds + digit_val c"
  by (simp add: undec_def)

lemma dec_is_digit: "\<forall>c \<in> set (dec n). is_digit c"
proof (induction n rule: dec.induct)
  case (1 n)
  show ?case
  proof (cases "n < 10")
    case True
    then show ?thesis by (subst dec.simps) (simp add: digit_cases)
  next
    case False
    with 1 show ?thesis by (subst dec.simps) (simp add: digit_cases)
  qed
qed

lemma undec_dec: "undec (dec n) = n"
proof (induction n rule: dec.induct)
  case (1 n)
  show ?case
  proof (cases "n < 10")
    case True
    then show ?thesis by (subst dec.simps) (simp add: undec_def digit_cases)
  next
    case False
    with 1 show ?thesis by (subst dec.simps) (simp add: undec_snoc digit_cases)
  qed
qed

lemma length_dec_pos: "0 < length (dec n)"
  by (subst dec.simps) simp

lemma length_dec_le: "n < 10 ^ Suc k \<Longrightarrow> length (dec n) \<le> Suc k"
proof (induction k arbitrary: n)
  case 0
  then show ?case by (subst dec.simps) simp
next
  case (Suc k)
  show ?case
  proof (cases "n < 10")
    case True
    then show ?thesis by (subst dec.simps) simp
  next
    case False
    from Suc.prems have "n div 10 < 10 ^ Suc k" by simp
    then have "length (dec (n div 10)) \<le> Suc k" by (rule Suc.IH)
    with False show ?thesis by (subst dec.simps) simp
  qed
qed

lemma length_dec_gt: "10 ^ k \<le> n \<Longrightarrow> k < length (dec n)"
proof (induction k arbitrary: n)
  case 0
  show ?case by (rule length_dec_pos)
next
  case (Suc k)
  have "(10::nat) \<le> 10 ^ Suc k" by simp
  then have ge: "10 \<le> n" using Suc.prems by (rule order_trans)
  from Suc.prems have "10 ^ k \<le> n div 10" by simp
  then have "k < length (dec (n div 10))" by (rule Suc.IH)
  with ge show ?case by (subst dec.simps) simp
qed

lemma undec_zeros: "undec (replicate k CHR ''0'' @ ds) = undec ds"
  by (induction k) (simp_all add: undec_def digit_val_def)

lemma is_digit_zero: "is_digit CHR ''0''"
  by (simp add: is_digit_def)

lemma fmt_0d_field:
  assumes "0 \<le> n" and "n < 10 ^ Suc k"
  shows "length (fmt_0d (Suc k) n) = Suc k \<and> (\<forall>c \<in> set (fmt_0d (Suc k) n). is_digit c)
         \<and> undec (fmt_0d (Suc k) n) = nat n"
proof -
  from assms have "nat n < 10 ^ Suc k"
    by (simp add: nat_less_iff)
  then have "length (dec (nat n)) \<le> Suc k" by (rule length_dec_le)
  with assms(1) show ?thesis
    by (auto simp add: fmt_0d_def Let_def undec_zeros undec_dec dec_is_digit is_digit_zero)
qed

lemma fmt_0d_two:
  assumes "0 \<le> n" and "n \<le> 99"
  shows "length (fmt_0d 2 n) = 2 \<and> (\<forall>c \<in> set (fmt_0d 2 n). is_digit c)
         \<and> undec (fmt_0d 2 n) = nat n"
  using fmt_0d_field [of n 1] assms by (simp add: numeral_2_eq_2)

lemma fmt_Y_field:
  assumes "1000 \<le> y" and "y \<le> 9999"
  shows "length (fmt_Y y) = 4 \<and> (\<forall>c \<in> set (fmt_Y y). is_digit c) \<and> undec (fmt_Y y) = nat y"
proof -
  from assms have "nat y < 10 ^ Suc 3" by simp
  then have "length (dec (nat y)) \<le> Suc 3" by (rule length_dec_le)
  moreover from assms have "10 ^ 3 \<le> nat y" by simp
  then have "3 < length (dec (nat y))" by (rule length_dec_gt)
  ultimately have "length (dec (nat y)) = 4" by simp
  with assms show ?thesis
    by (simp add: fmt_Y_def undec_dec dec_is_digit)
qed

lemma sdiv_nonneg: "0 \<le> a \<Longrightarrow> 0 < b \<Longrightarrow> a sdiv b = a div (b::int)"
  by (cases "a = 0") (simp_all add: signed_divide_int_def)

lemma millis_field:
  assumes "0 \<le> u" "u < 1000000"
  shows "length (fmt_0d 4 (u sdiv 1000)) = 4 \<and> (\<forall>c \<in> set (fmt_0d 4 (u sdiv 1000)). is_digit c)
         \<and> undec (fmt_0d 4 (u sdiv 1000)) = nat (u div 1000)
         \<and> undec (fmt_0d 4 (u sdiv 1000)) \<le> 999"
proof -
  from assms have eq: "u sdiv 1000 = u div 1000" by (simp add: sdiv_nonneg)
  from assms have r: "0 \<le> u div 1000" "u div 1000 \<le> 999" by simp_all
  then have "u div 1000 < 10 ^ Suc 3" by simp
  with r(1) have "length (fmt_0d (Suc 3) (u div 1000)) = Suc 3
     \<and> (\<forall>c \<in> set (fmt_0d (Suc 3) (u div 1000)). is_digit c)
     \<and> undec (fmt_0d (Suc 3) (u div 1000)) = nat (u div 1000)"
    by (rule fmt_0d_field)
  moreover have "Suc 3 = 4" by simp
  ultimately show ?thesis using r eq by simp
qed

lemma demo_file_once_eval:
  "demo_file_once =
     (True,
      \<lparr>m_bToFile = True, m_bTruncateLongLog = False, m_iLogFile = 3, m_nLogLevel = 0\<rparr>,
      \<lparr>cwd = ''/w'', uninit_buf = [], dirs = [''/w/Log/''], deny_mkdir = [], deny_open = [],
       deny_write = [], fds = [(3, ''/w/Log/a'')],
       trace = [SysGetcwd, SysAccess ''/w/Log/'', SysMkdir ''/w/Log/'', SysOpen ''/w/Log/a'' 3]\<rparr>)"
  by (simp add: demo_file_once_def demo_defs Init_def os_defs Let_def lowest_free_def
      open_handles_def)

subsection \<open>Log leaves the configuration alone\<close>

text \<open>
  C9. Whatever a call of \<open>Log\<close> returns, the logger it leaves is the logger it found:
  the destination flag, the truncation flag, the level threshold and the file handle are
  the same before and after.
\<close>

theorem Log_frame:
  "fst (snd (Log lv clk tid nLevel f g n msg (s, w))) = s
   \<and> m_bToFile (fst (snd (Log lv clk tid nLevel f g n msg (s, w)))) = m_bToFile s
   \<and> m_bTruncateLongLog (fst (snd (Log lv clk tid nLevel f g n msg (s, w)))) = m_bTruncateLongLog s
   \<and> m_nLogLevel (fst (snd (Log lv clk tid nLevel f g n msg (s, w)))) = m_nLogLevel s
   \<and> m_iLogFile (fst (snd (Log lv clk tid nLevel f g n msg (s, w)))) = m_iLogFile s"
  by (simp add: Log_state)

subsection \<open>Logging after shutdown\<close>

text \<open>
  C5. After \<open>UnInit\<close> the handle is the sentinel \<open>-1\<close>, so a call of \<open>Log\<close> above the
  threshold on a logger whose destination is the file returns false, and the system is
  as \<open>UnInit\<close> left it: nothing is written.
\<close>

theorem Log_after_UnInit:
  assumes "m_bToFile s" and "m_nLogLevel s < nLevel"
  shows "Log lv clk tid nLevel f g n msg (UnInit (s, w)) = (False, UnInit (s, w))
         \<and> m_iLogFile (fst (UnInit (s, w))) = -1
         \<and> m_nLogLevel (fst (UnInit (s, w))) < nLevel"
proof -
  obtain s' w' where u: "UnInit (s, w) = (s', w')"
    by (cases "UnInit (s, w)")
  have "m_bToFile s'" and "m_iLogFile s' = -1" and "m_nLogLevel s' = m_nLogLevel s"
    using UnInit_flag [of s w] UnInit_handle [of s w] UnInit_level [of s w] assms(1) u
    by simp_all
  then show ?thesis
    using u assms(2) by (simp add: Log_no_handle)
qed

theorem Log_after_UnInit_witness:
  "m_bToFile (fst (snd demo_file_once))
   \<and> m_nLogLevel (fst (snd demo_file_once)) < 3
   \<and> Log spec_levels demo_clock 7 3 ''f.c'' ''main'' 12 ''hello'' (UnInit (snd demo_file_once))
       = (False, UnInit (snd demo_file_once))
   \<and> m_iLogFile (fst (UnInit (snd demo_file_once))) = -1"
proof -
  have a: "m_bToFile (fst (snd demo_file_once))"
    by (simp add: demo_file_once_eval)
  have b: "m_nLogLevel (fst (snd demo_file_once)) < 3"
    by (simp add: demo_file_once_eval)
  show ?thesis
    using a b
      Log_after_UnInit [OF a b, of spec_levels demo_clock 7 "''f.c''" "''main''" 12 "''hello''"
        "snd (snd demo_file_once)"]
    by simp
qed

subsection \<open>Initialising without a file name\<close>

text \<open>
  C4, as amended. \<open>Init\<close> with the file destination and an absent or an empty file name
  returns false, for every truncation flag. With an absent name (a null pointer) it makes
  no system call: the system is unchanged. With the empty name it asks for the working
  directory, looks for the log directory, makes it when it is missing, and calls
  \<^verbatim>\<open>open\<close> on the directory itself, which fails.
\<close>

theorem Init_without_name:
  "fst (Init psz True t None (s, w)) = False
   \<and> snd (snd (Init psz True t None (s, w))) = w
   \<and> fst (Init psz True t (Some []) (s, w)) = False
   \<and> trace (snd (snd (Init psz True t (Some []) (s, w)))) =
       trace w @ [SysGetcwd, SysAccess (logFileDirectory psz w)]
       @ (if logFileDirectory psz w \<in> set (dirs w) then []
          else [SysMkdir (logFileDirectory psz w)])
       @ [SysOpen (logFileDirectory psz w) (-1)]"
proof -
  have "m_iLogFile (fst (snd (Init psz True t (Some []) (s, w)))) = -1"
    using Init_file_result [of psz t "[]" s w] by (simp add: Init_empty_name_fails)
  then show ?thesis
    using Init_file_trace [of psz t "[]" s w]
    by (simp add: Init_missing_name Init_empty_name_fails)
qed

text \<open>
  With the empty name on the initial logger, \<open>Init\<close> returns false after four system
  calls, one of which has made the log directory.
\<close>

theorem Init_empty_name_counterexample:
  "fst (Init 4096 True False (Some []) (swlog_initial spec_levels, demo_world)) = False
   \<and> trace (snd (snd (Init 4096 True False (Some []) (swlog_initial spec_levels, demo_world)))) =
     [SysGetcwd, SysAccess ''/w/Log/'', SysMkdir ''/w/Log/'', SysOpen ''/w/Log/'' (-1)]
   \<and> dirs (snd (snd (Init 4096 True False (Some []) (swlog_initial spec_levels, demo_world)))) =
     [''/w/Log/'']
   \<and> trace demo_world = [] \<and> dirs demo_world = []"
  by (simp add: demo_defs Init_def os_defs Let_def)

subsection \<open>When a line is put out\<close>

text \<open>
  C1, as amended. \<open>Log\<close> puts a line out exactly when the level is above the threshold
  and, for the file destination, the handle is not the sentinel; at or below the threshold
  it returns false at once, with the logger and the system as they were.
\<close>

theorem Log_emits_iff:
  "(outputs (snd (snd (Log lv clk tid nLevel f g n msg (s, w)))) \<noteq> outputs w)
     = (m_nLogLevel s < nLevel \<and> (m_bToFile s \<longrightarrow> m_iLogFile s \<noteq> -1))
   \<and> (nLevel \<le> m_nLogLevel s \<longrightarrow> Log lv clk tid nLevel f g n msg (s, w) = (False, s, w))"
  by (simp add: Log_outputs Log_filtered)

theorem Log_emits_iff_witness:
  "m_nLogLevel (fst (snd demo_file_once)) < 3
   \<and> m_bToFile (fst (snd demo_file_once))
   \<and> m_iLogFile (fst (snd demo_file_once)) \<noteq> -1
   \<and> outputs (snd (snd (Log spec_levels demo_clock 7 3 ''f.c'' ''main'' 12 ''hello''
                             (snd demo_file_once))))
       \<noteq> outputs (snd (snd demo_file_once))
   \<and> (0::int) \<le> m_nLogLevel demo_console
   \<and> Log spec_levels demo_clock 7 0 ''f.c'' ''main'' 12 ''hello'' (demo_console, demo_world)
       = (False, demo_console, demo_world)"
proof -
  have once: "m_nLogLevel (fst (snd demo_file_once)) = 0" "m_bToFile (fst (snd demo_file_once))"
    "m_iLogFile (fst (snd demo_file_once)) = 3"
    by (simp_all add: demo_file_once_eval)
  have lvl: "m_nLogLevel demo_console = 0"
    by (simp add: demo_console_def)
  show ?thesis
    using
      Log_emits_iff [of spec_levels demo_clock 7 3 "''f.c''" "''main''" 12 "''hello''"
        "fst (snd demo_file_once)" "snd (snd demo_file_once)"]
      Log_emits_iff [of spec_levels demo_clock 7 0 "''f.c''" "''main''" 12 "''hello''"
        demo_console demo_world]
    by (simp add: once lvl)
qed

text \<open>
  The initial logger after \<open>Init\<close> for the file destination without a name: no file is
  open, level 3 is above the threshold 0, and \<open>Log\<close> returns false and puts nothing out.
\<close>

theorem Log_emits_iff_counterexample:
  "m_nLogLevel (fst (snd demo_no_file)) < 3
   \<and> m_bToFile (fst (snd demo_no_file))
   \<and> m_iLogFile (fst (snd demo_no_file)) = -1
   \<and> outputs (snd (snd (Log spec_levels demo_clock 7 3 ''f.c'' ''main'' 12 ''hello''
                             (snd demo_no_file))))
       = outputs (snd (snd demo_no_file))
   \<and> fst (Log spec_levels demo_clock 7 3 ''f.c'' ''main'' 12 ''hello'' (snd demo_no_file))
       = False"
  by (simp add: demo_no_file_def Init_missing_name Log_def swlog_initial_def spec_levels_def)

subsection \<open>The logger after a failure\<close>

text \<open>
  C3, as amended. \<open>Init\<close> and \<open>Log\<close> report a failure by the value they return and in no
  other way. \<open>Log\<close> returns false when the level is at or below the threshold and when the
  destination is the file and the handle is the sentinel, and then the logger and the system
  are as they were; whenever \<open>Log\<close> returns false the logger is as it was. \<open>Init\<close> returns
  false exactly when the destination is the file and the name is absent or \<^verbatim>\<open>open\<close>
  returned \<open>-1\<close>. A failing \<open>Init\<close> leaves the level threshold as it was, and it has stored
  its two flags; the handle is as it was when the name is absent, and the sentinel when
  \<^verbatim>\<open>open\<close> failed.
\<close>

theorem failure_state:
  "(nLevel \<le> m_nLogLevel s \<or> m_bToFile s \<and> m_iLogFile s = -1
      \<longrightarrow> Log lv clk tid nLevel f g n msg (s, w) = (False, s, w))
   \<and> (\<not> fst (Log lv clk tid nLevel f g n msg (s, w))
      \<longrightarrow> fst (snd (Log lv clk tid nLevel f g n msg (s, w))) = s)
   \<and> (\<not> fst (Init psz b t name (s, w)))
       = (b \<and> (name = None \<or> m_iLogFile (fst (snd (Init psz b t name (s, w)))) = -1))
   \<and> (b \<and> name = Some nm
      \<longrightarrow> last (trace (snd (snd (Init psz b t name (s, w))))) =
            SysOpen (logFileDirectory psz w @ nm) (m_iLogFile (fst (snd (Init psz b t name (s, w))))))
   \<and> (\<not> fst (Init psz b t name (s, w))
      \<longrightarrow> b
          \<and> fst (snd (Init psz b t name (s, w))) =
              s\<lparr>m_bToFile := True, m_bTruncateLongLog := t,
                m_iLogFile := (if name = None then m_iLogFile s else -1)\<rparr>
          \<and> m_nLogLevel (fst (snd (Init psz b t name (s, w)))) = m_nLogLevel s)"
proof -
  have A: "nLevel \<le> m_nLogLevel s \<or> m_bToFile s \<and> m_iLogFile s = -1
      \<longrightarrow> Log lv clk tid nLevel f g n msg (s, w) = (False, s, w)"
    by (auto simp add: Log_filtered Log_no_handle)
  have B: "\<not> fst (Log lv clk tid nLevel f g n msg (s, w))
      \<longrightarrow> fst (snd (Log lv clk tid nLevel f g n msg (s, w))) = s"
    by (simp add: Log_state)
  have C: "(\<not> fst (Init psz b t name (s, w)))
       = (b \<and> (name = None \<or> m_iLogFile (fst (snd (Init psz b t name (s, w)))) = -1))"
  proof (cases b)
    case False
    then show ?thesis by (simp add: Init_console)
  next
    case True
    show ?thesis
    proof (cases name)
      case None
      with True show ?thesis by (simp add: Init_missing_name)
    next
      case (Some x)
      with True show ?thesis using Init_file_result [of psz t x s w] by simp
    qed
  qed
  have D: "b \<and> name = Some nm
      \<longrightarrow> last (trace (snd (snd (Init psz b t name (s, w))))) =
            SysOpen (logFileDirectory psz w @ nm) (m_iLogFile (fst (snd (Init psz b t name (s, w)))))"
    by (simp add: Init_file_trace)
  have E: "b \<and> fst (snd (Init psz b t name (s, w))) =
              s\<lparr>m_bToFile := True, m_bTruncateLongLog := t,
                m_iLogFile := (if name = None then m_iLogFile s else -1)\<rparr>
          \<and> m_nLogLevel (fst (snd (Init psz b t name (s, w)))) = m_nLogLevel s"
    if fail: "\<not> fst (Init psz b t name (s, w))"
  proof (cases b)
    case False
    with fail show ?thesis by (simp add: Init_console)
  next
    case True
    show ?thesis
    proof (cases name)
      case None
      with True show ?thesis by (simp add: Init_missing_name)
    next
      case (Some x)
      with True fail show ?thesis by (simp add: Init_file_state)
    qed
  qed
  from A B C D E show ?thesis by blast
qed

theorem failure_state_witness:
  "(0::int) \<le> m_nLogLevel demo_console
   \<and> Log spec_levels demo_clock 7 0 ''f.c'' ''main'' 12 ''hello'' (demo_console, demo_world)
       = (False, demo_console, demo_world)
   \<and> \<not> fst (Log spec_levels demo_clock 7 0 ''f.c'' ''main'' 12 ''hello''
                (demo_console, demo_world))
   \<and> fst (snd (Log spec_levels demo_clock 7 0 ''f.c'' ''main'' 12 ''hello''
                  (demo_console, demo_world))) = demo_console
   \<and> \<not> fst (Init 4096 True True (Some []) (demo_console, demo_world))
   \<and> last (trace (snd (snd (Init 4096 True True (Some []) (demo_console, demo_world)))))
       = SysOpen ''/w/Log/'' (-1)
   \<and> fst (snd (Init 4096 True True (Some []) (demo_console, demo_world))) =
       \<lparr>m_bToFile = True, m_bTruncateLongLog = True, m_iLogFile = -1, m_nLogLevel = 0\<rparr>"
proof -
  have a: "(0::int) \<le> m_nLogLevel demo_console"
    by (simp add: demo_console_def)
  have b: "\<not> fst (Init 4096 True True (Some []) (demo_console, demo_world))"
    by (simp add: Init_empty_name_fails)
  have c: "logFileDirectory 4096 demo_world = ''/w/Log/''"
    by (simp add: logFileDirectory_def demo_world_def)
  show ?thesis
    using a b
      failure_state [of 0 demo_console spec_levels demo_clock 7 "''f.c''" "''main''" 12
        "''hello''" demo_world 4096 True True "Some []" "[]"]
    by (simp add: c) (simp add: demo_console_def)
qed

text \<open>
  \<open>Init\<close> for the file destination with an absent name fails, and the logger is no longer
  the initial one: the destination and the truncation flag have changed.
\<close>

theorem failure_state_counterexample:
  "fst (Init 4096 True True None (swlog_initial spec_levels, demo_world)) = False
   \<and> fst (snd (Init 4096 True True None (swlog_initial spec_levels, demo_world)))
       \<noteq> swlog_initial spec_levels
   \<and> m_bToFile (fst (snd (Init 4096 True True None (swlog_initial spec_levels, demo_world))))
   \<and> m_bToFile (swlog_initial spec_levels) = False"
  by (simp add: Init_missing_name swlog_initial_def)

subsection \<open>The flags are stored before the name is checked\<close>

text \<open>
  C10, as amended. \<open>Init\<close> for the file destination with an absent name returns false and
  leaves the destination set to the file and the truncation flag set to its argument; the
  handle is as it was. Every later call of \<open>Log\<close> above the threshold then takes the file
  branch. When the handle is the sentinel, each such call returns false and nothing reaches
  the system. When an earlier \<open>Init\<close> has left a file open, each such call returns true
  and writes its line to that descriptor.
\<close>

theorem Init_flags_before_check:
  "Init psz True t None (s, w) = (False, s\<lparr>m_bToFile := True, m_bTruncateLongLog := t\<rparr>, w)
   \<and> m_bToFile (fst (snd (Init psz True t None (s, w))))
   \<and> m_bTruncateLongLog (fst (snd (Init psz True t None (s, w)))) = t
   \<and> m_iLogFile (fst (snd (Init psz True t None (s, w)))) = m_iLogFile s
   \<and> (m_iLogFile s = -1 \<longrightarrow> (\<forall>c \<in> set cs. m_nLogLevel s < lc_level c) \<longrightarrow>
        Logs lv cs (snd (Init psz True t None (s, w))) =
          (replicate (length cs) False, s\<lparr>m_bToFile := True, m_bTruncateLongLog := t\<rparr>, w))
   \<and> (m_iLogFile s \<noteq> -1 \<longrightarrow> (\<forall>c \<in> set cs. m_nLogLevel s < lc_level c) \<longrightarrow>
        Logs lv cs (snd (Init psz True t None (s, w))) =
          (replicate (length cs) True, s\<lparr>m_bToFile := True, m_bTruncateLongLog := t\<rparr>,
           w\<lparr>trace := trace w @
               concat (map (file_calls lv (s\<lparr>m_bToFile := True, m_bTruncateLongLog := t\<rparr>)) cs)\<rparr>))"
proof -
  let ?s = "s\<lparr>m_bToFile := True, m_bTruncateLongLog := t\<rparr>"
  have "Logs lv cs (?s, w) =
          (replicate (length cs) True, ?s, w\<lparr>trace := trace w @ concat (map (file_calls lv ?s) cs)\<rparr>)"
    if "m_iLogFile s \<noteq> -1" and "\<forall>c \<in> set cs. m_nLogLevel s < lc_level c"
    using that by (intro Logs_file_branch) simp_all
  then show ?thesis
    by (simp add: Init_missing_name Logs_no_handle)
qed

theorem Init_flags_before_check_witness:
  "m_iLogFile (swlog_initial spec_levels) = -1
   \<and> m_nLogLevel (swlog_initial spec_levels) < 3
   \<and> m_nLogLevel (swlog_initial spec_levels) < 1
   \<and> Logs spec_levels
         [\<lparr>lc_clk = demo_clock, lc_thread = 7, lc_level = 3, lc_file = ''f.c'',
           lc_func = ''main'', lc_line = 12, lc_msg = ''hello''\<rparr>,
          \<lparr>lc_clk = demo_clock, lc_thread = 7, lc_level = 1, lc_file = ''f.c'',
           lc_func = ''main'', lc_line = 13, lc_msg = ''bye''\<rparr>]
         (snd (Init 4096 True True None (swlog_initial spec_levels, demo_world)))
       = ([False, False],
          \<lparr>m_bToFile = True, m_bTruncateLongLog = True, m_iLogFile = -1, m_nLogLevel = 0\<rparr>,
          demo_world)
   \<and> m_iLogFile (fst (snd demo_file_once)) \<noteq> -1
   \<and> m_nLogLevel (fst (snd demo_file_once)) < 3
   \<and> fst (Logs spec_levels
         [\<lparr>lc_clk = demo_clock, lc_thread = 7, lc_level = 3, lc_file = ''f.c'',
           lc_func = ''main'', lc_line = 12, lc_msg = ''hello''\<rparr>]
         (snd (Init 4096 True True None (snd demo_file_once)))) = [True]"
proof -
  have once: "m_iLogFile (fst (snd demo_file_once)) = 3" "m_nLogLevel (fst (snd demo_file_once)) = 0"
    by (simp_all add: demo_file_once_eval)
  show ?thesis
    using
      Init_flags_before_check [of 4096 True "swlog_initial spec_levels" demo_world
        "[\<lparr>lc_clk = demo_clock, lc_thread = 7, lc_level = 3, lc_file = ''f.c'',
           lc_func = ''main'', lc_line = 12, lc_msg = ''hello''\<rparr>,
          \<lparr>lc_clk = demo_clock, lc_thread = 7, lc_level = 1, lc_file = ''f.c'',
           lc_func = ''main'', lc_line = 13, lc_msg = ''bye''\<rparr>]" spec_levels]
      Init_flags_before_check [of 4096 True "fst (snd demo_file_once)" "snd (snd demo_file_once)"
        "[\<lparr>lc_clk = demo_clock, lc_thread = 7, lc_level = 3, lc_file = ''f.c'',
           lc_func = ''main'', lc_line = 12, lc_msg = ''hello''\<rparr>]" spec_levels]
    by (simp add: once)
      (simp add: swlog_initial_def spec_levels_def Init_missing_name Log_no_handle
        case_prod_beta Log_result demo_file_once_eval)
qed

text \<open>
  After a successful initialisation to a file, \<open>Init\<close> for the file destination with an
  absent name returns false and descriptor 3 stays in the logger; a call of \<open>Log\<close> at
  level 3, above the threshold 0, then returns true and writes to descriptor 3.
\<close>

theorem Init_flags_before_check_counterexample:
  "fst demo_file_once
   \<and> fst demo_file_then_absent = False
   \<and> m_bToFile (fst (snd demo_file_then_absent))
   \<and> m_iLogFile (fst (snd demo_file_then_absent)) = 3
   \<and> m_nLogLevel (fst (snd demo_file_then_absent)) < 3
   \<and> fst (Log spec_levels demo_clock 7 3 ''f.c'' ''main'' 12 ''hello''
            (snd demo_file_then_absent)) = True
   \<and> outputs (snd (snd demo_file_then_absent)) = []
   \<and> outputs (snd (snd (Log spec_levels demo_clock 7 3 ''f.c'' ''main'' 12 ''hello''
                             (snd demo_file_then_absent)))) =
       [LogLine (fst (snd demo_file_then_absent))
          (LogHeader spec_levels demo_clock 7 3 ''f.c'' ''main'' 12) ''hello'']"
  by (simp add: demo_file_then_absent_def demo_file_once_eval Init_missing_name Log_outputs
      Log_result) (simp add: outputs_def)

subsection \<open>Shutdown\<close>

text \<open>
  C7, as amended. \<open>UnInit\<close> leaves the handle at the sentinel: when a handle is open it
  closes it, whatever the destination flag says, and when the handle is the sentinel
  already, and only then, it changes nothing; so it changes nothing on a logger that has
  only been initialised for the console. Twice is the same as once.
\<close>

theorem UnInit_idempotent:
  "m_iLogFile (fst (UnInit (s, w))) = -1
   \<and> (m_iLogFile s \<noteq> -1 \<longrightarrow>
        UnInit (s, w) = (s\<lparr>m_iLogFile := -1\<rparr>, os_close (m_iLogFile s) w)
        \<and> m_iLogFile s \<notin> set (open_handles (snd (UnInit (s, w)))))
   \<and> ((UnInit (s, w) = (s, w)) = (m_iLogFile s = -1))
   \<and> UnInit (snd (Init psz False t name (swlog_initial lv, w)))
       = snd (Init psz False t name (swlog_initial lv, w))
   \<and> UnInit (UnInit (s, w)) = UnInit (s, w)"
proof -
  have "UnInit (snd (Init psz False t name (swlog_initial lv, w)))
          = snd (Init psz False t name (swlog_initial lv, w))"
    by (simp add: Init_console UnInit_def swlog_initial_def)
  moreover have "m_iLogFile s \<noteq> -1 \<longrightarrow>
        UnInit (s, w) = (s\<lparr>m_iLogFile := -1\<rparr>, os_close (m_iLogFile s) w)
        \<and> m_iLogFile s \<notin> set (open_handles (snd (UnInit (s, w))))"
    by (simp add: UnInit_def os_close_handles)
  ultimately show ?thesis
    using UnInit_handle [of s w] UnInit_noop_iff [of s w] UnInit_idem [of "(s, w)"]
    by blast
qed

theorem UnInit_idempotent_witness:
  "m_iLogFile (fst (snd demo_file_once)) \<noteq> -1
   \<and> open_handles (snd (snd demo_file_once)) = [3]
   \<and> m_iLogFile (fst (UnInit (snd demo_file_once))) = -1
   \<and> open_handles (snd (UnInit (snd demo_file_once))) = []
   \<and> UnInit (UnInit (snd demo_file_once))
       = UnInit (snd demo_file_once)"
proof -
  have once: "m_iLogFile (fst (snd demo_file_once)) = 3"
    "open_handles (snd (snd demo_file_once)) = [3]"
    by (simp_all add: demo_file_once_eval open_handles_def)
  show ?thesis
    using UnInit_idempotent [of "fst (snd demo_file_once)" "snd (snd demo_file_once)"]
    by (simp add: once os_close_handles UnInit_def)
qed

text \<open>
  After a file initialisation and then a console initialisation the destination is the
  console and descriptor 3 is still open; \<open>UnInit\<close> closes it.
\<close>

theorem UnInit_console_counterexample:
  "m_bToFile (fst (snd demo_file_then_console)) = False
   \<and> UnInit (snd demo_file_then_console) \<noteq> snd demo_file_then_console
   \<and> open_handles (snd (snd demo_file_then_console)) = [3]
   \<and> open_handles (snd (UnInit (snd demo_file_then_console))) = []"
  by (simp add: demo_file_then_console_def demo_file_once_eval Init_console UnInit_def
      os_close_def emit_def open_handles_def)

subsection \<open>Initialising twice\<close>

text \<open>
  C2, as amended. \<open>Init\<close> never closes a descriptor: every descriptor open before the call
  is open after it. A successful \<open>Init\<close> for a file opens one new descriptor, different
  from all the open ones, and stores it, so a handle stored before stays open and is no
  longer held. When the stored handle is the only descriptor open, \<open>UnInit\<close> followed by
  \<open>Init\<close> leaves at most one open.
\<close>

theorem Init_reopen:
  "set (fds w) \<subseteq> set (fds (snd (snd (Init psz b t name (s, w)))))
   \<and> (fst (Init psz True t (Some nm) (s, w)) \<longrightarrow>
        fds (snd (snd (Init psz True t (Some nm) (s, w)))) =
          (m_iLogFile (fst (snd (Init psz True t (Some nm) (s, w)))), logFileDirectory psz w @ nm)
            # fds w
        \<and> m_iLogFile (fst (snd (Init psz True t (Some nm) (s, w)))) \<notin> set (open_handles w)
        \<and> m_iLogFile (fst (snd (Init psz True t (Some nm) (s, w)))) \<noteq> -1)
   \<and> (open_handles w = (if m_iLogFile s = -1 then [] else [m_iLogFile s]) \<longrightarrow>
        length (open_handles (snd (snd (Init psz b t name (UnInit (s, w)))))) \<le> 1)"
proof (intro conjI impI)
  show "set (fds w) \<subseteq> set (fds (snd (snd (Init psz b t name (s, w)))))"
    using Init_fds_cases [of psz b t name s w] by auto
next
  assume ok: "fst (Init psz True t (Some nm) (s, w))"
  then show "fds (snd (snd (Init psz True t (Some nm) (s, w)))) =
      (m_iLogFile (fst (snd (Init psz True t (Some nm) (s, w)))), logFileDirectory psz w @ nm)
            # fds w"
    by (simp add: Init_file_fds Init_file_state)
  from ok show "m_iLogFile (fst (snd (Init psz True t (Some nm) (s, w)))) \<notin> set (open_handles w)"
    using lowest_free_fresh [of "open_handles w"] by (simp add: Init_file_state)
  from ok show "m_iLogFile (fst (snd (Init psz True t (Some nm) (s, w)))) \<noteq> -1"
    using lowest_free_fresh [of "open_handles w"] by (simp add: Init_file_state)
next
  assume only: "open_handles w = (if m_iLogFile s = -1 then [] else [m_iLogFile s])"
  obtain s' w' where u: "UnInit (s, w) = (s', w')"
    by (cases "UnInit (s, w)")
  from only have "open_handles (snd (UnInit (s, w))) = []"
    by (rule UnInit_closes_all)
  with u have "fds w' = []"
    by (simp add: open_handles_def)
  with Init_fds_cases [of psz b t name s' w']
  show "length (open_handles (snd (snd (Init psz b t name (UnInit (s, w)))))) \<le> 1"
    by (auto simp add: u open_handles_def)
qed

theorem Init_reopen_witness:
  "fst (Init 4096 True False (Some ''a'') (swlog_initial spec_levels, demo_world))
   \<and> fds (snd (snd (Init 4096 True False (Some ''a'') (swlog_initial spec_levels, demo_world))))
       = [(3, ''/w/Log/a'')]
   \<and> m_iLogFile (fst (snd (Init 4096 True False (Some ''a'')
                               (swlog_initial spec_levels, demo_world)))) = 3
   \<and> open_handles (snd (snd demo_file_once)) = [m_iLogFile (fst (snd demo_file_once))]
   \<and> length (open_handles (snd (snd (Init 4096 True False (Some ''a'')
                                         (UnInit (snd demo_file_once)))))) \<le> 1"
proof -
  have ev: "Init 4096 True False (Some ''a'') (swlog_initial spec_levels, demo_world) = demo_file_once"
    by (simp add: demo_file_once_def)
  have h: "open_handles (snd (snd demo_file_once)) = [3]" "m_iLogFile (fst (snd demo_file_once)) = 3"
    by (simp_all add: demo_file_once_eval open_handles_def)
  show ?thesis
    using
      Init_reopen [of demo_world 4096 True False "Some ''a''" "swlog_initial spec_levels" "''a''"]
      Init_reopen [of "snd (snd demo_file_once)" 4096 True False "Some ''a''"
        "fst (snd demo_file_once)" "''a''"]
    by (simp add: ev h) (simp add: demo_file_once_eval demo_world_def)
qed

text \<open>
  Two initialisations to the same file, one after the other: both succeed, the logger holds
  descriptor 4, descriptor 3 is still open, and no \<^verbatim>\<open>close\<close> was called.
\<close>

theorem Init_reopen_counterexample:
  "fst demo_file_once \<and> fst demo_file_twice
   \<and> m_iLogFile (fst (snd demo_file_once)) = 3
   \<and> m_iLogFile (fst (snd demo_file_twice)) = 4
   \<and> open_handles (snd (snd demo_file_twice)) = [4, 3]
   \<and> trace (snd (snd demo_file_twice)) =
       [SysGetcwd, SysAccess ''/w/Log/'', SysMkdir ''/w/Log/'', SysOpen ''/w/Log/a'' 3,
        SysGetcwd, SysAccess ''/w/Log/'', SysOpen ''/w/Log/a'' 4]"
  by (simp add: demo_file_twice_def demo_file_once_eval Init_def os_defs Let_def
      lowest_free_def open_handles_def)

subsection \<open>Truncation\<close>

text \<open>
  C6. On a logger that truncates, the line a successful call of \<open>Log\<close> puts out is the
  whole prefix, then the first 256 characters of the body, then CR LF. A body of 500
  characters is cut to 256, and a body of at most 256 characters is put out whole.
\<close>

theorem Log_truncation:
  assumes "m_bTruncateLongLog s" and "fst (Log lv clk tid nLevel f g n msg (s, w))"
  shows "outputs (snd (snd (Log lv clk tid nLevel f g n msg (s, w)))) =
           outputs w @ [LogHeader lv clk tid nLevel f g n @ take 256 msg @ [CHR 0x0D, CHR 0x0A]]
         \<and> length (take 256 msg) = min 256 (length msg)
         \<and> (length msg = 500 \<longrightarrow> length (take 256 msg) = 256)
         \<and> (length msg \<le> 256 \<longrightarrow> take 256 msg = msg)"
proof -
  from assms(2) have "m_nLogLevel s < nLevel \<and> (m_bToFile s \<longrightarrow> m_iLogFile s \<noteq> -1)"
    by (simp add: Log_result)
  with assms(1) show ?thesis
    by (simp add: Log_outputs LogLine_def MAX_LINE_LENGTH_def min_def)
qed

theorem Log_truncation_witness:
  "m_bTruncateLongLog demo_console
   \<and> fst (Log spec_levels demo_clock 7 3 ''f.c'' ''main'' 12 (replicate 500 CHR ''x'')
            (demo_console, demo_world))
   \<and> outputs (snd (snd (Log spec_levels demo_clock 7 3 ''f.c'' ''main'' 12
                             (replicate 500 CHR ''x'') (demo_console, demo_world)))) =
       [LogHeader spec_levels demo_clock 7 3 ''f.c'' ''main'' 12 @ replicate 256 CHR ''x''
        @ [CHR 0x0D, CHR 0x0A]]
   \<and> length (replicate 500 CHR ''x'') = 500"
proof -
  have a: "m_bTruncateLongLog demo_console"
    by (simp add: demo_console_def)
  have b: "fst (Log spec_levels demo_clock 7 3 ''f.c'' ''main'' 12 (replicate 500 CHR ''x'')
                  (demo_console, demo_world))"
    by (simp add: Log_result demo_console_def)
  have c: "outputs demo_world = []"
    by (simp add: outputs_def demo_world_def)
  show ?thesis
    using a b Log_truncation [OF a b] by (simp add: c)
qed

subsection \<open>The timestamp\<close>

text \<open>
  C8. For a clock reading in range, \<open>GetLogTime\<close> gives the local time in the shape
  \<^verbatim>\<open>[YYYY-MM-DD HH:MM:SS mmmm]\<close>: fields of 4, 2, 2, 2, 2, 2 and 4 decimal digits between
  the fixed separators, reading as the year, the month, the day, the hour, the minute, the
  second, and the milliseconds of the reading, a number from 0 to 999 padded with zeros to
  four digits. It is a function of the clock reading alone.
\<close>

theorem GetLogTime_format:
  assumes "clock_in_range clk"
  shows "\<exists>Y Mo D H Mi S ms.
           GetLogTime clk =
             ''['' @ Y @ ''-'' @ Mo @ ''-'' @ D @ '' '' @ H @ '':'' @ Mi @ '':'' @ S @ '' '' @ ms @ '']''
           \<and> map length [Y, Mo, D, H, Mi, S, ms] = [4, 2, 2, 2, 2, 2, 4]
           \<and> (\<forall>c \<in> set (Y @ Mo @ D @ H @ Mi @ S @ ms). is_digit c)
           \<and> map undec [Y, Mo, D, H, Mi, S] =
               [nat (tm_year (clk_local clk) + 1900), nat (tm_mon (clk_local clk) + 1),
                nat (tm_mday (clk_local clk)), nat (tm_hour (clk_local clk)),
                nat (tm_min (clk_local clk)), nat (tm_sec (clk_local clk))]
           \<and> undec ms = nat (tv_usec (clk_tv clk) div 1000) \<and> undec ms \<le> 999"
proof -
  let ?t = "clk_local clk"
  from assms have r:
    "0 \<le> tv_usec (clk_tv clk)" "tv_usec (clk_tv clk) < 1000000"
    "0 \<le> tm_sec ?t" "tm_sec ?t \<le> 60" "0 \<le> tm_min ?t" "tm_min ?t \<le> 59"
    "0 \<le> tm_hour ?t" "tm_hour ?t \<le> 23" "1 \<le> tm_mday ?t" "tm_mday ?t \<le> 31"
    "0 \<le> tm_mon ?t" "tm_mon ?t \<le> 11" "1000 \<le> tm_year ?t + 1900" "tm_year ?t + 1900 \<le> 9999"
    by (simp_all add: clock_in_range_def)
  have Y: "length (fmt_Y (tm_year ?t + 1900)) = 4
           \<and> (\<forall>c \<in> set (fmt_Y (tm_year ?t + 1900)). is_digit c)
           \<and> undec (fmt_Y (tm_year ?t + 1900)) = nat (tm_year ?t + 1900)"
    using r by (intro fmt_Y_field)
  have Mo: "length (fmt_0d 2 (tm_mon ?t + 1)) = 2
            \<and> (\<forall>c \<in> set (fmt_0d 2 (tm_mon ?t + 1)). is_digit c)
            \<and> undec (fmt_0d 2 (tm_mon ?t + 1)) = nat (tm_mon ?t + 1)"
    using r by (intro fmt_0d_two) simp_all
  have D: "length (fmt_0d 2 (tm_mday ?t)) = 2 \<and> (\<forall>c \<in> set (fmt_0d 2 (tm_mday ?t)). is_digit c)
           \<and> undec (fmt_0d 2 (tm_mday ?t)) = nat (tm_mday ?t)"
    using r by (intro fmt_0d_two) simp_all
  have H: "length (fmt_0d 2 (tm_hour ?t)) = 2 \<and> (\<forall>c \<in> set (fmt_0d 2 (tm_hour ?t)). is_digit c)
           \<and> undec (fmt_0d 2 (tm_hour ?t)) = nat (tm_hour ?t)"
    using r by (intro fmt_0d_two) simp_all
  have Mi: "length (fmt_0d 2 (tm_min ?t)) = 2 \<and> (\<forall>c \<in> set (fmt_0d 2 (tm_min ?t)). is_digit c)
            \<and> undec (fmt_0d 2 (tm_min ?t)) = nat (tm_min ?t)"
    using r by (intro fmt_0d_two) simp_all
  have S: "length (fmt_0d 2 (tm_sec ?t)) = 2 \<and> (\<forall>c \<in> set (fmt_0d 2 (tm_sec ?t)). is_digit c)
           \<and> undec (fmt_0d 2 (tm_sec ?t)) = nat (tm_sec ?t)"
    using r by (intro fmt_0d_two) simp_all
  have ms: "length (fmt_0d 4 (tv_usec (clk_tv clk) sdiv 1000)) = 4
            \<and> (\<forall>c \<in> set (fmt_0d 4 (tv_usec (clk_tv clk) sdiv 1000)). is_digit c)
            \<and> undec (fmt_0d 4 (tv_usec (clk_tv clk) sdiv 1000)) = nat (tv_usec (clk_tv clk) div 1000)
            \<and> undec (fmt_0d 4 (tv_usec (clk_tv clk) sdiv 1000)) \<le> 999"
    using r by (intro millis_field)
  show ?thesis
    apply (rule exI [of _ "fmt_Y (tm_year ?t + 1900)"])
    apply (rule exI [of _ "fmt_0d 2 (tm_mon ?t + 1)"])
    apply (rule exI [of _ "fmt_0d 2 (tm_mday ?t)"])
    apply (rule exI [of _ "fmt_0d 2 (tm_hour ?t)"])
    apply (rule exI [of _ "fmt_0d 2 (tm_min ?t)"])
    apply (rule exI [of _ "fmt_0d 2 (tm_sec ?t)"])
    apply (rule exI [of _ "fmt_0d 4 (tv_usec (clk_tv clk) sdiv 1000)"])
    using Y Mo D H Mi S ms
    apply (simp add: GetLogTime_def strftime_ymd_hms_def Let_def ball_Un)
    done
qed

theorem GetLogTime_format_witness:
  "clock_in_range demo_clock \<and> GetLogTime demo_clock = ''[2022-01-11 03:04:05 0083]''"
proof -
  have a: "clock_in_range demo_clock"
    by (simp add: clock_in_range_def demo_clock_def)
  have b: "GetLogTime demo_clock = ''[2022-01-11 03:04:05 0083]''"
    by code_simp
  show ?thesis
    using a b GetLogTime_format [OF a] by simp
qed

end
